theory Spec2Isabelle
  imports Main "HOL-Library.AList"
begin

section \<open>Python values used by server.py\<close>

text \<open>
  A Python \<open>str\<close> is a sequence of Unicode code points, so it is modelled as a list of
  natural numbers (not of 8-bit characters): \<open>str.strip\<close> and \<open>str.split\<close> work on code
  points. \<open>lit\<close> turns an ASCII literal of the source into such a sequence.
\<close>

type_synonym pystr = "nat list"

definition lit :: "string \<Rightarrow> pystr" where
  "lit s = map of_char s"

text \<open>
  The values stored in the dictionaries of the program: \<open>None\<close>, strings and integers
  (the field types of \<open>PostConfig\<close>). A dictionary keeps its insertion order, so it is an
  association list; \<open>d.get(k)\<close> is \<open>map_of d k\<close> and \<open>d[k] = v\<close> is \<open>AList.update k v d\<close>.
\<close>

datatype pyval = PNone | PStr pystr | PInt int

type_synonym pydict = "(string \<times> pyval) list"

text \<open>Truthiness of the result of \<open>d.get(k)\<close>: a missing key gives \<open>None\<close>.\<close>

fun truthy :: "pyval option \<Rightarrow> bool" where
  "truthy None = False"
| "truthy (Some PNone) = False"
| "truthy (Some (PStr s)) = (s \<noteq> [])"
| "truthy (Some (PInt i)) = (i \<noteq> 0)"

text \<open>Decimal rendering of an integer, as \<open>str(int)\<close> and f-strings produce it.\<close>

definition digit :: "nat \<Rightarrow> nat" where
  "digit d = 48 + d"

function str_nat :: "nat \<Rightarrow> pystr" where
  "str_nat n = (if n < 10 then [digit n] else str_nat (n div 10) @ [digit (n mod 10)])"
  by pat_completeness auto
termination
  by (relation "measure id") auto

declare str_nat.simps [simp del]

definition str_int :: "int \<Rightarrow> pystr" where
  "str_int i = (if i < 0 then 45 # str_nat (nat (- i)) else str_nat (nat i))"

text \<open>What an f-string puts in place of \<open>{v}\<close>.\<close>

fun py_format :: "pyval \<Rightarrow> pystr" where
  "py_format PNone = lit ''None''"
| "py_format (PStr s) = s"
| "py_format (PInt i) = str_int i"

section \<open>Global state\<close>

text \<open>
  \<open>queue_data\<close> and the entries of \<open>history_data\<close> are dictionaries whose key set never
  changes, so they are records. \<open>current_index\<close> is only ever assigned \<open>0\<close> and a remainder
  modulo a positive length, so it is a natural number. \<open>config_data\<close> is \<open>{}\<close> until the
  first save and is tested for emptiness, so it stays a dictionary.

  \<open>posting_task\<close> holds the handle returned by \<open>asyncio.create_task\<close>. The tasks of the
  event loop are kept in \<open>tasks\<close>: a handle is an index into that list.
\<close>

record queue =
  lines :: "pystr list"
  current_index :: nat

record history_entry =
  content :: pystr
  line_number :: nat
  status :: pystr
  error_message :: "pystr option"
  posted_at :: pystr

datatype task_status = Active | Cancelled

record state =
  posting_task :: "nat option"
  is_posting :: bool
  config_data :: pydict
  queue_data :: queue
  history_data :: "history_entry list"
  tasks :: "task_status list"

definition init :: state where
  "init = \<lparr>posting_task = None, is_posting = False, config_data = [],
           queue_data = \<lparr>lines = [], current_index = 0\<rparr>, history_data = [], tasks = []\<rparr>"

text \<open>
  A handler either returns a JSON dictionary or raises. \<open>HTTPException\<close> carries the
  status code and the detail text.
\<close>

datatype error = HTTPException int pystr | UnicodeDecodeError

type_synonym response = pydict

section \<open>Starting and stopping (\<open>start_posting\<close>, \<open>stop_posting\<close>)\<close>

definition create_task :: "state \<Rightarrow> state" where
  "create_task s = s\<lparr>posting_task := Some (length (tasks s)), tasks := tasks s @ [Active]\<rparr>"

definition start_posting :: "state \<Rightarrow> state \<times> (error + response)" where
  "start_posting s =
     (if is_posting s then
        (s, Inr [(''status'', PStr (lit ''already_running'')),
                 (''message'', PStr (lit ''Posting is already running''))])
      else if config_data s = [] then
        (s, Inl (HTTPException 400 (lit ''Please configure settings first'')))
      else if lines (queue_data s) = [] then
        (s, Inl (HTTPException 400 (lit ''Please upload a post file first'')))
      else
        (create_task (s\<lparr>is_posting := True\<rparr>),
         Inr [(''status'', PStr (lit ''success'')),
              (''message'', PStr (lit ''Posting started''))]))"

text \<open>
  \<open>posting_task.cancel()\<close> followed by \<open>await posting_task\<close>: the task is cancelled at
  its suspension point and the handler goes on once it has ended.
\<close>

definition cancel_task :: "nat \<Rightarrow> state \<Rightarrow> state" where
  "cancel_task t s = s\<lparr>tasks := (tasks s)[t := Cancelled]\<rparr>"

definition stop_posting :: "state \<Rightarrow> state \<times> (error + response)" where
  "stop_posting s =
     (if \<not> is_posting s then
        (s, Inr [(''status'', PStr (lit ''not_running'')),
                 (''message'', PStr (lit ''Posting is not running''))])
      else
        let s1 = s\<lparr>is_posting := False\<rparr>;
            s2 = (case posting_task s1 of
                    None \<Rightarrow> s1
                  | Some t \<Rightarrow> (cancel_task t s1)\<lparr>posting_task := None\<rparr>)
        in (s2, Inr [(''status'', PStr (lit ''success'')),
                     (''message'', PStr (lit ''Posting stopped''))]))"

text \<open>The names the specification gives to the outcomes of the two handlers.\<close>

definition ConfigMissing :: error where
  "ConfigMissing = HTTPException 400 (lit ''Please configure settings first'')"

definition QueueEmpty :: error where
  "QueueEmpty = HTTPException 400 (lit ''Please upload a post file first'')"

definition response_status :: "error + response \<Rightarrow> pyval option" where
  "response_status r = (case r of Inl e \<Rightarrow> None | Inr d \<Rightarrow> map_of d ''status'')"

section \<open>Publishing one entry (\<open>post_to_facebook\<close>)\<close>

text \<open>
  The HTTP client is the environment: a request yields a response (status code and body
  text) or raises an exception with a message.
\<close>

datatype post_outcome = PostRaised pystr | PostResponse int pystr

type_synonym http_post = "pystr \<Rightarrow> pydict \<Rightarrow> post_outcome"

text \<open>
  Lines 63 to 69. \<open>config[k]\<close> is read only under the guard \<open>config.get(k)\<close>, so each
  subscript is the value the guard has just found.
\<close>

definition compose_message :: "pydict \<Rightarrow> pystr \<Rightarrow> pystr" where
  "compose_message config text =
     (let message =
            (case map_of config ''prefix_text'' of
               Some p \<Rightarrow> if truthy (Some p) then py_format p @ text else text
             | None \<Rightarrow> text)
      in case map_of config ''mention_uid'' of
           Some uid \<Rightarrow>
             if truthy (Some uid) then
               let mention_text =
                     (case map_of config ''mention_name'' of
                        Some name \<Rightarrow>
                          if truthy (Some name)
                          then lit ''@['' @ py_format uid @ lit '':'' @ py_format name @ lit '']''
                          else lit ''@['' @ py_format uid @ lit '']''
                      | None \<Rightarrow> lit ''@['' @ py_format uid @ lit '']'')
               in mention_text @ lit '' '' @ message
             else message
         | None \<Rightarrow> message)"

text \<open>Lines 71 to 74.\<close>

definition feed_url :: "pydict \<Rightarrow> pystr" where
  "feed_url config =
     (case map_of config ''page_id'' of
        Some p \<Rightarrow>
          if truthy (Some p)
          then lit ''https://graph.facebook.com/v21.0/'' @ py_format p @ lit ''/feed''
          else lit ''https://graph.facebook.com/v21.0/me/feed''
      | None \<Rightarrow> lit ''https://graph.facebook.com/v21.0/me/feed'')"

text \<open>Lines 77 to 79. A missing \<open>fb_token\<close> raises \<open>KeyError\<close>.\<close>

definition post_data :: "pydict \<Rightarrow> pystr \<Rightarrow> pydict option" where
  "post_data config message =
     (case map_of config ''fb_token'' of
        None \<Rightarrow> None
      | Some token \<Rightarrow>
          let d = [(''message'', PStr message), (''access_token'', token)]
          in Some (case map_of config ''mention_uid'' of
                     Some uid \<Rightarrow> if truthy (Some uid) then AList.update ''tags'' uid d else d
                   | None \<Rightarrow> d))"

text \<open>
  Every exception is caught and returned as text: \<open>str(KeyError('fb_token'))\<close> is the key
  in single quotes.
\<close>

definition post_to_facebook :: "http_post \<Rightarrow> pydict \<Rightarrow> pystr \<Rightarrow> bool \<times> pystr option" where
  "post_to_facebook client config text =
     (let message = compose_message config text;
          url = feed_url config
      in case post_data config message of
           None \<Rightarrow> (False, Some (39 # lit ''fb_token'' @ [39]))
         | Some d \<Rightarrow>
             (case client url d of
                PostRaised e \<Rightarrow> (False, Some e)
              | PostResponse status_code body \<Rightarrow>
                  if status_code = 200 then (True, None)
                  else (False, Some (lit ''Facebook API Error: '' @ body))))"

section \<open>The posting loop (\<open>posting_loop\<close>)\<close>

text \<open>Lines 103 to 112: the new entry goes to the front, the list is cut to 50.\<close>

definition record_history :: "history_entry \<Rightarrow> history_entry list \<Rightarrow> history_entry list" where
  "record_history e history =
     (let h = e # history in if length h > 50 then take 50 h else h)"

text \<open>
  Line 114. The remainder by an empty list's length raises \<open>ZeroDivisionError\<close>
  (in HOL \<open>n mod 0 = n\<close>), so the result is optional.
\<close>

definition advance :: "queue \<Rightarrow> queue option" where
  "advance q =
     (if length (lines q) = 0 then None
      else Some (q\<lparr>current_index := (current_index q + 1) mod length (lines q)\<rparr>))"

text \<open>\<open>xs[i]\<close> for a non-negative index: out of range raises \<open>IndexError\<close>.\<close>

definition item :: "'a list \<Rightarrow> nat \<Rightarrow> 'a option" where
  "item xs i = (if i < length xs then Some (xs ! i) else None)"

text \<open>
  \<open>asyncio.sleep(x)\<close> returns at once for \<open>x <= 0\<close> and otherwise converts \<open>x\<close> to a
  float to set the timer. An integer that rounds beyond the largest float, that is one
  from \<open>2^1024 - 2^970\<close> on, makes that conversion raise \<open>OverflowError\<close>.
\<close>

definition float_overflow :: "int \<Rightarrow> bool" where
  "float_overflow x = (2 ^ 1024 - 2 ^ 970 \<le> x)"

text \<open>
  Line 115: the sleep of \<open>config_data.get('delay_minutes', 5) * 60\<close> seconds. The result is
  the number of seconds slept, or nothing when the sleep raises: \<open>TypeError\<close> for a value
  that is not an integer, \<open>OverflowError\<close> for a product beyond the float range.
\<close>

definition delay_seconds :: "pydict \<Rightarrow> int option" where
  "delay_seconds config =
     (case map_of config ''delay_minutes'' of
        None \<Rightarrow> Some (5 * 60)
      | Some (PInt d) \<Rightarrow> if float_overflow (d * 60) then None else Some (d * 60)
      | Some _ \<Rightarrow> None)"

text \<open>
  What one iteration needs from outside: the HTTP client and the clock
  (\<open>datetime.now().isoformat()\<close>).
\<close>

record cycle_env =
  client_post :: http_post
  now :: pystr

text \<open>
  One iteration of the \<open>while\<close> body, taken as one step (requests that arrive while the
  publish call is awaited are not interleaved). It returns the new state and the number
  of seconds the iteration then sleeps. An exception inside the \<open>try\<close> keeps what was
  already written, prints, and sleeps 60 seconds.
\<close>

definition loop_body :: "cycle_env \<Rightarrow> state \<Rightarrow> state \<times> int" where
  "loop_body env s =
     (let q = queue_data s in
      if lines q = [] then (s, 60)
      else (case item (lines q) (current_index q) of
        None \<Rightarrow> (s, 60)
      | Some current_line \<Rightarrow>
          (let (success, error) = post_to_facebook (client_post env) (config_data s) current_line;
               e = \<lparr>content = current_line,
                    line_number = current_index q + 1,
                    status = (if success then lit ''success'' else lit ''failed''),
                    error_message = error,
                    posted_at = now env\<rparr>;
               s1 = s\<lparr>history_data := record_history e (history_data s)\<rparr>
           in (case advance q of
                 None \<Rightarrow> (s1, 60)
               | Some q' \<Rightarrow>
                   (let s2 = s1\<lparr>queue_data := q'\<rparr>
                    in (case delay_seconds (config_data s2) of
                          None \<Rightarrow> (s2, 60)
                        | Some d \<Rightarrow> (s2, d)))))))"

text \<open>
  \<open>while is_posting\<close>: the loop never ends by itself, so it is run on a finite list of
  environments, one per iteration, and returns the state together with the sleeps made.
\<close>

fun posting_loop :: "cycle_env list \<Rightarrow> state \<Rightarrow> state \<times> int list" where
  "posting_loop [] s = (s, [])"
| "posting_loop (env # envs) s =
     (if is_posting s then
        (let (s', d) = loop_body env s;
             (s'', ds) = posting_loop envs s'
         in (s'', d # ds))
      else (s, []))"

section \<open>Saving the configuration (\<open>save_config\<close>)\<close>

text \<open>
  \<open>PostConfig\<close>, as validated by pydantic: \<open>Optional[str]\<close> fields hold a string or
  \<open>None\<close>. \<open>config.dict()\<close> lists the fields in declaration order.
\<close>

record PostConfig =
  fb_token :: pystr
  page_id :: "pystr option"
  delay_minutes :: int
  mention_uid :: "pystr option"
  mention_name :: "pystr option"
  prefix_text :: "pystr option"

definition opt_str :: "pystr option \<Rightarrow> pyval" where
  "opt_str x = (case x of None \<Rightarrow> PNone | Some t \<Rightarrow> PStr t)"

definition config_dict :: "PostConfig \<Rightarrow> pydict" where
  "config_dict c =
     [(''fb_token'', PStr (fb_token c)),
      (''page_id'', opt_str (page_id c)),
      (''delay_minutes'', PInt (delay_minutes c)),
      (''mention_uid'', opt_str (mention_uid c)),
      (''mention_name'', opt_str (mention_name c)),
      (''prefix_text'', opt_str (prefix_text c))]"

text \<open>
  The name lookup: the request raises (timeout, transport error), or a response arrives
  with a status code and a body. \<open>response.json().get\<close> raises on a body that is not a
  JSON object. The fields of a JSON object are taken to hold strings, integers or
  \<open>null\<close>, the values \<open>pyval\<close> has.
\<close>

datatype json_body = NotJsonObject | JsonObject pydict

datatype get_outcome = GetRaised | GetResponse int json_body

type_synonym http_get = "pystr \<Rightarrow> pydict \<Rightarrow> get_outcome"

text \<open>The result is \<open>None\<close> (\<open>PNone\<close>) or the value of the field \<open>name\<close>, \<open>""\<close> by default.\<close>

definition get_facebook_user_name :: "http_get \<Rightarrow> pyval \<Rightarrow> pyval \<Rightarrow> pyval" where
  "get_facebook_user_name client uid token =
     (case client (lit ''https://graph.facebook.com/v21.0/'' @ py_format uid)
                  [(''fields'', PStr (lit ''name'')), (''access_token'', token)] of
        GetRaised \<Rightarrow> PNone
      | GetResponse status_code body \<Rightarrow>
          if status_code = 200 then
            (case body of
               NotJsonObject \<Rightarrow> PNone
             | JsonObject d \<Rightarrow> (case map_of d ''name'' of None \<Rightarrow> PStr [] | Some v \<Rightarrow> v))
          else PNone)"

definition save_config :: "http_get \<Rightarrow> PostConfig \<Rightarrow> state \<Rightarrow> state \<times> (error + response)" where
  "save_config client config s =
     (let d = config_dict config;
          d' = (if truthy (map_of d ''mention_uid'') \<and> \<not> truthy (map_of d ''mention_name'') then
                  (case (map_of d ''mention_uid'', map_of d ''fb_token'') of
                     (Some uid, Some token) \<Rightarrow>
                       (let name = get_facebook_user_name client uid token
                        in if truthy (Some name) then AList.update ''mention_name'' name d else d)
                   | _ \<Rightarrow> d)
                else d)
      in (s\<lparr>config_data := d'\<rparr>,
          Inr [(''status'', PStr (lit ''success'')),
               (''message'', PStr (lit ''Configuration saved''))]))"

section \<open>Uploading a queue (\<open>upload_file\<close>)\<close>

text \<open>
  The uploaded bytes are given by what \<open>content.decode('utf-8')\<close> makes of them: the
  text they encode, or nothing when they are not valid UTF-8 (the handler then raises
  \<open>UnicodeDecodeError\<close>).
\<close>

datatype file_bytes = Utf8 pystr | NotUtf8

record UploadFile =
  filename :: pystr
  file_content :: file_bytes

definition endswith :: "pystr \<Rightarrow> pystr \<Rightarrow> bool" where
  "endswith s suffix = (take (length suffix) (rev s) = rev suffix)"

text \<open>\<open>text.split('\n')\<close>: the pieces between line feeds (code point 10), never an empty list.\<close>

fun split_lf :: "pystr \<Rightarrow> pystr list" where
  "split_lf [] = [Nil]"
| "split_lf (c # cs) =
     (if c = 10 then [] # split_lf cs
      else (case split_lf cs of
              [] \<Rightarrow> [c] # []
            | l # ls \<Rightarrow> (c # l) # ls))"

text \<open>
  The code points \<open>str.strip()\<close> removes: those for which \<open>str.isspace\<close> holds
  (U+0009 to U+000D, U+001C to U+0020, U+0085, U+00A0, U+1680, U+2000 to U+200A, U+2028,
  U+2029, U+202F, U+205F, U+3000).
\<close>

definition isspace :: "nat \<Rightarrow> bool" where
  "isspace c =
     ((9 \<le> c \<and> c \<le> 13) \<or> (28 \<le> c \<and> c \<le> 32) \<or> c = 133 \<or> c = 160 \<or> c = 5760 \<or>
      (8192 \<le> c \<and> c \<le> 8202) \<or> c = 8232 \<or> c = 8233 \<or> c = 8239 \<or> c = 8287 \<or> c = 12288)"

definition strip :: "pystr \<Rightarrow> pystr" where
  "strip s = rev (dropWhile isspace (rev (dropWhile isspace s)))"

text \<open>Line 156: \<open>[line.strip() for line in text.split('\n') if line.strip()]\<close>.\<close>

definition parse_lines :: "pystr \<Rightarrow> pystr list" where
  "parse_lines text = map strip (filter (\<lambda>line. strip line \<noteq> []) (split_lf text))"

definition upload_file :: "UploadFile \<Rightarrow> state \<Rightarrow> state \<times> (error + response)" where
  "upload_file file s =
     (if \<not> endswith (filename file) (lit ''.txt'') then
        (s, Inl (HTTPException 400 (lit ''Only .txt files are allowed'')))
      else case file_content file of
        NotUtf8 \<Rightarrow> (s, Inl UnicodeDecodeError)
      | Utf8 text \<Rightarrow>
          let ls = parse_lines text in
          if ls = [] then (s, Inl (HTTPException 400 (lit ''File is empty'')))
          else (s\<lparr>queue_data := \<lparr>lines = ls, current_index = 0\<rparr>\<rparr>,
                Inr [(''status'', PStr (lit ''success'')),
                     (''message'', PStr (lit ''File uploaded successfully. ''
                                         @ py_format (PInt (int (length ls)))
                                         @ lit '' lines loaded.'')),
                     (''total_lines'', PInt (int (length ls)))]))"

definition UploadFormatError :: error where
  "UploadFormatError = HTTPException 400 (lit ''Only .txt files are allowed'')"

definition UploadEmpty :: error where
  "UploadEmpty = HTTPException 400 (lit ''File is empty'')"

section \<open>Reachable states\<close>

text \<open>
  The states the server can be in: from the initial globals, by any handler with any
  input, and by an iteration of the loop while \<open>is_posting\<close> holds.
\<close>

inductive reachable :: "state \<Rightarrow> bool" where
  r_init: "reachable init"
| r_save: "reachable s \<Longrightarrow> reachable (fst (save_config client config s))"
| r_upload: "reachable s \<Longrightarrow> reachable (fst (upload_file file s))"
| r_start: "reachable s \<Longrightarrow> reachable (fst (start_posting s))"
| r_stop: "reachable s \<Longrightarrow> reachable (fst (stop_posting s))"
| r_cycle: "reachable s \<Longrightarrow> is_posting s \<Longrightarrow> reachable (fst (loop_body env s))"

section \<open>Invariants of the reachable states\<close>

text \<open>
  In every reachable state the cursor of a non-empty queue is in range, the history has
  at most 50 entries, a running scheduler has a configuration, a non-empty queue and an
  active task, and a stopped one has no task handle.
\<close>

definition state_inv :: "state \<Rightarrow> bool" where
  "state_inv s =
     ((lines (queue_data s) \<noteq> [] \<longrightarrow> current_index (queue_data s) < length (lines (queue_data s))) \<and>
      length (history_data s) \<le> 50 \<and>
      (is_posting s \<longrightarrow>
         config_data s \<noteq> [] \<and> lines (queue_data s) \<noteq> [] \<and>
         (case posting_task s of
            None \<Rightarrow> False
          | Some t \<Rightarrow> t < length (tasks s) \<and> tasks s ! t = Active)) \<and>
      (\<not> is_posting s \<longrightarrow> posting_task s = None))"

section \<open>Notions for the statements\<close>

text \<open>The advance of line 114 made \<open>k\<close> times in a row.\<close>

fun advance_n :: "nat \<Rightarrow> queue \<Rightarrow> queue option" where
  "advance_n 0 q = Some q"
| "advance_n (Suc k) q = (case advance q of None \<Rightarrow> None | Some q' \<Rightarrow> advance_n k q')"

text \<open>\<open>'\n'.join(pieces)\<close>, the inverse of the split.\<close>

fun join_lf :: "pystr list \<Rightarrow> pystr" where
  "join_lf [] = []"
| "join_lf [l] = l"
| "join_lf (l # m # ls) = l @ 10 # join_lf (m # ls)"

text \<open>
  The text of an optional field, empty for \<open>None\<close>; and the request the name lookup
  makes for a configuration.
\<close>

definition field_text :: "pystr option \<Rightarrow> pystr" where
  "field_text x = (case x of None \<Rightarrow> [] | Some t \<Rightarrow> t)"

definition lookup_request :: "http_get \<Rightarrow> PostConfig \<Rightarrow> get_outcome" where
  "lookup_request client c =
     client (lit ''https://graph.facebook.com/v21.0/'' @ field_text (mention_uid c))
            [(''fields'', PStr (lit ''name'')), (''access_token'', PStr (fb_token c))]"

section \<open>Concrete inputs\<close>

text \<open>
  The scenario of the specification: token \<open>T\<close>, a delay of one minute, the queue
  \<open>hello\<close>, \<open>world\<close>; every optional field has its default \<open>""\<close>.
\<close>

definition example_config :: PostConfig where
  "example_config =
     \<lparr>fb_token = lit ''T'', page_id = Some [], delay_minutes = 1, mention_uid = Some [],
      mention_name = Some [], prefix_text = Some []\<rparr>"

definition example_text :: pystr where
  "example_text = lit ''hello'' @ [10] @ lit ''world'' @ [10]"

definition example_file :: UploadFile where
  "example_file = \<lparr>filename = lit ''posts.txt'', file_content = Utf8 example_text\<rparr>"

definition configured :: state where
  "configured = fst (save_config (\<lambda>url params. GetRaised) example_config init)"

definition ready :: state where
  "ready = fst (upload_file example_file configured)"

definition running :: state where
  "running = fst (start_posting ready)"

definition example_env :: cycle_env where
  "example_env = \<lparr>client_post = (\<lambda>url d. PostResponse 200 (lit ''ok'')), now = lit ''t1''\<rparr>"

definition failing_env :: cycle_env where
  "failing_env = \<lparr>client_post = (\<lambda>url d. PostResponse 500 (lit ''boom'')), now = lit ''t2''\<rparr>"

definition after_one :: state where
  "after_one = fst (loop_body example_env running)"




text \<open>A full history: fifty entries that differ in their position, the oldest last.\<close>

definition numbered_entry :: "nat \<Rightarrow> history_entry" where
  "numbered_entry i =
     \<lparr>content = lit ''hello'', line_number = i, status = lit ''success'',
      error_message = None, posted_at = lit ''t1''\<rparr>"

definition full_history :: "history_entry list" where
  "full_history = map numbered_entry (rev [1..<51])"

text \<open>
  Uploads: the text \<open>a\n\nb\n\<close>, a text whose lines are all blank (with a tab, a carriage
  return and a no-break space), and a file that is not a \<open>.txt\<close> file.
\<close>

definition ab_text :: pystr where
  "ab_text = lit ''a'' @ [10, 10] @ lit ''b'' @ [10]"

definition blank_text :: pystr where
  "blank_text = [10, 32, 9, 13, 10, 160, 10]"

definition blank_file :: UploadFile where
  "blank_file = \<lparr>filename = lit ''blank.txt'', file_content = Utf8 blank_text\<rparr>"

definition ab_file :: UploadFile where
  "ab_file = \<lparr>filename = lit ''ab.txt'', file_content = Utf8 ab_text\<rparr>"

definition picture_file :: UploadFile where
  "picture_file = \<lparr>filename = lit ''posts.jpg'', file_content = Utf8 ab_text\<rparr>"

text \<open>
  A configuration with every decoration, one with a mention identifier and no name, and a
  lookup client that knows the name of identifier 42.
\<close>

definition decorated_config :: PostConfig where
  "decorated_config =
     \<lparr>fb_token = lit ''T'', page_id = Some (lit ''77''), delay_minutes = 5,
      mention_uid = Some (lit ''42''), mention_name = Some (lit ''Bob''),
      prefix_text = Some (lit ''Hi '')\<rparr>"

definition unnamed_config :: PostConfig where
  "unnamed_config =
     \<lparr>fb_token = lit ''T'', page_id = None, delay_minutes = 5,
      mention_uid = Some (lit ''42''), mention_name = None, prefix_text = Some []\<rparr>"

definition name_client :: http_get where
  "name_client url params =
     (if url = lit ''https://graph.facebook.com/v21.0/42''
      then GetResponse 200 (JsonObject [(''name'', PStr (lit ''Bob'')), (''id'', PStr (lit ''42''))])
      else GetResponse 404 NotJsonObject)"

section \<open>Basic facts\<close>

lemma config_dict_nonempty: "config_dict c \<noteq> []"
  by (simp add: config_dict_def)

lemma update_nonempty: "AList.update k v d \<noteq> []"
  by (cases d) auto

lemma save_config_config_nonempty: "config_data (fst (save_config client c s)) \<noteq> []"
  by (simp add: save_config_def Let_def config_dict_nonempty update_nonempty
           split: option.splits prod.splits)

lemma save_config_frame:
  "fst (save_config client c s) = s\<lparr>config_data := config_data (fst (save_config client c s))\<rparr>"
  by (simp add: save_config_def Let_def)

lemma record_history_length: "length (record_history e h) \<le> 50"
  by (simp add: record_history_def Let_def)

lemma inv_init: "state_inv init"
  by (simp add: state_inv_def init_def)

lemma inv_save: "state_inv s \<Longrightarrow> state_inv (fst (save_config client c s))"
  using save_config_config_nonempty[of client c s]
  by (subst save_config_frame) (simp add: state_inv_def split: option.splits)

lemma inv_upload: "state_inv s \<Longrightarrow> state_inv (fst (upload_file f s))"
  by (auto simp: upload_file_def state_inv_def Let_def split: file_bytes.splits option.splits)

lemma inv_start: "state_inv s \<Longrightarrow> state_inv (fst (start_posting s))"
  by (auto simp: start_posting_def state_inv_def create_task_def nth_append split: option.splits)

lemma inv_stop: "state_inv s \<Longrightarrow> state_inv (fst (stop_posting s))"
  by (auto simp: stop_posting_def state_inv_def cancel_task_def Let_def split: option.splits)

lemma inv_cycle: "state_inv s \<Longrightarrow> state_inv (fst (loop_body env s))"
  by (auto simp: loop_body_def state_inv_def Let_def advance_def item_def record_history_length
           split: option.splits prod.splits)

lemma reachable_inv: "reachable s \<Longrightarrow> state_inv s"
  by (induction rule: reachable.induct)
     (simp_all add: inv_init inv_save inv_upload inv_start inv_stop inv_cycle)

section \<open>The example states\<close>

lemma configured_eq: "configured = init\<lparr>config_data := config_dict example_config\<rparr>"
  by (simp add: configured_def save_config_def example_config_def config_dict_def opt_str_def)

lemma parse_example: "parse_lines example_text = [lit ''hello'', lit ''world'']"
  by (simp add: example_text_def parse_lines_def lit_def strip_def isspace_def)

lemma example_file_txt: "endswith (filename example_file) (lit ''.txt'')"
  by (simp add: example_file_def endswith_def lit_def)

lemma example_file_content:
  "file_content example_file = Utf8 example_text"
  by (simp add: example_file_def)

lemma ready_eq:
  "ready = init\<lparr>config_data := config_dict example_config,
                queue_data := \<lparr>lines = [lit ''hello'', lit ''world''], current_index = 0\<rparr>\<rparr>"
  by (simp add: ready_def upload_file_def example_file_txt example_file_content configured_eq
        parse_example Let_def)

lemma running_eq:
  "running = init\<lparr>config_data := config_dict example_config,
                queue_data := \<lparr>lines = [lit ''hello'', lit ''world''], current_index = 0\<rparr>,
                is_posting := True, posting_task := Some 0, tasks := [Active]\<rparr>"
  by (simp add: running_def ready_eq start_posting_def create_task_def init_def config_dict_def)

lemma reachable_configured: "reachable configured"
  unfolding configured_def by (rule r_save [OF r_init])

lemma reachable_ready: "reachable ready"
  unfolding ready_def by (rule r_upload [OF reachable_configured])

lemma reachable_running: "reachable running"
  unfolding running_def by (rule r_start [OF reachable_ready])

section \<open>Starting\<close>

text \<open>
  C1. From a stopped scheduler (and so from every reachable state without a configuration
  or without queue entries), \<open>start_posting\<close> fails with \<open>ConfigMissing\<close> when no
  configuration has been saved, whatever the queue holds; it fails when the queue has no
  entries, whatever the configuration is, and with \<open>QueueEmpty\<close> once a configuration is
  there (the configuration is checked first); with a configuration, a non-empty queue and
  a stopped scheduler it sets \<open>is_posting\<close>, creates the loop task and returns success.
\<close>

theorem start_posting_preconditions:
  assumes "\<not> is_posting s \<or> reachable s"
  shows "(config_data s = [] \<longrightarrow> start_posting s = (s, Inl ConfigMissing)) \<and>
         (lines (queue_data s) = [] \<longrightarrow>
            (\<exists>e. start_posting s = (s, Inl e)) \<and>
            (config_data s \<noteq> [] \<longrightarrow> start_posting s = (s, Inl QueueEmpty))) \<and>
         (config_data s \<noteq> [] \<and> lines (queue_data s) \<noteq> [] \<and> \<not> is_posting s \<longrightarrow>
            start_posting s =
              (s\<lparr>is_posting := True, posting_task := Some (length (tasks s)),
                 tasks := tasks s @ [Active]\<rparr>,
               Inr [(''status'', PStr (lit ''success'')),
                    (''message'', PStr (lit ''Posting started''))]))"
proof -
  have stopped: "\<not> is_posting s" if "config_data s = [] \<or> lines (queue_data s) = []"
    using assms that reachable_inv [of s] by (auto simp: state_inv_def)
  show ?thesis
    using stopped
    by (auto simp: start_posting_def ConfigMissing_def QueueEmpty_def create_task_def)
qed

theorem start_posting_preconditions_witness:
  "start_posting init = (init, Inl ConfigMissing) \<and>
   start_posting configured = (configured, Inl QueueEmpty) \<and>
   start_posting ready = (running, Inr [(''status'', PStr (lit ''success'')),
                                      (''message'', PStr (lit ''Posting started''))]) \<and>
   is_posting running \<and> reachable running"
proof -
  have a: "config_data init = []" "lines (queue_data init) = []" "\<not> is_posting init"
    by (simp_all add: init_def)
  have b: "config_data configured \<noteq> []" "lines (queue_data configured) = []"
    by (simp_all add: configured_eq init_def config_dict_nonempty)
  have c: "config_data ready \<noteq> []" "lines (queue_data ready) \<noteq> []" "\<not> is_posting ready"
    by (simp_all add: ready_eq init_def config_dict_nonempty)
  have d: "ready\<lparr>is_posting := True, posting_task := Some (length (tasks ready)),
                 tasks := tasks ready @ [Active]\<rparr> = running"
    by (simp add: ready_eq running_eq init_def)
  show ?thesis
    using start_posting_preconditions [of init] start_posting_preconditions [of configured]
      start_posting_preconditions [of ready] a b c d r_init reachable_configured
      reachable_running
    by (simp add: running_eq)
qed


section \<open>Stopping\<close>

text \<open>
  C7. \<open>stop_posting\<close> on a stopped scheduler returns the status \<open>not_running\<close> and leaves
  the state as it is; on a running one it returns success, clears \<open>is_posting\<close> and the
  task handle and cancels the task the handle named (in a reachable state that task exists
  and was active). A second call right after any call is therefore the no-op.
\<close>

theorem stop_posting_idempotent:
  "(\<not> is_posting s \<longrightarrow>
      stop_posting s = (s, Inr [(''status'', PStr (lit ''not_running'')),
                                (''message'', PStr (lit ''Posting is not running''))])) \<and>
   (is_posting s \<longrightarrow>
      snd (stop_posting s) = Inr [(''status'', PStr (lit ''success'')),
                                  (''message'', PStr (lit ''Posting stopped''))] \<and>
      \<not> is_posting (fst (stop_posting s)) \<and>
      (\<forall>t. posting_task s = Some t \<longrightarrow>
         fst (stop_posting s) =
           s\<lparr>is_posting := False, posting_task := None, tasks := (tasks s)[t := Cancelled]\<rparr>)) \<and>
   (is_posting s \<and> reachable s \<longrightarrow>
      (\<exists>t. posting_task s = Some t \<and> tasks s ! t = Active \<and>
           tasks (fst (stop_posting s)) ! t = Cancelled) \<and>
      posting_task (fst (stop_posting s)) = None) \<and>
   stop_posting (fst (stop_posting s)) =
     (fst (stop_posting s), Inr [(''status'', PStr (lit ''not_running'')),
                                 (''message'', PStr (lit ''Posting is not running''))])"
proof -
  have running: "\<exists>t. posting_task s = Some t \<and> t < length (tasks s) \<and> tasks s ! t = Active"
    if "is_posting s" "reachable s"
    using that reachable_inv [of s] by (auto simp: state_inv_def split: option.splits)
  have stopped: "\<not> is_posting (fst (stop_posting s))"
    by (simp add: stop_posting_def cancel_task_def Let_def split: option.splits)
  have again: "stop_posting (fst (stop_posting s)) =
     (fst (stop_posting s), Inr [(''status'', PStr (lit ''not_running'')),
                                 (''message'', PStr (lit ''Posting is not running''))])"
    using stopped by (subst stop_posting_def) simp
  have a: "\<not> is_posting s \<longrightarrow>
      stop_posting s = (s, Inr [(''status'', PStr (lit ''not_running'')),
                                (''message'', PStr (lit ''Posting is not running''))])"
    by (simp add: stop_posting_def)
  have b: "is_posting s \<longrightarrow>
      snd (stop_posting s) = Inr [(''status'', PStr (lit ''success'')),
                                  (''message'', PStr (lit ''Posting stopped''))] \<and>
      \<not> is_posting (fst (stop_posting s)) \<and>
      (\<forall>t. posting_task s = Some t \<longrightarrow>
         fst (stop_posting s) =
           s\<lparr>is_posting := False, posting_task := None, tasks := (tasks s)[t := Cancelled]\<rparr>)"
    by (simp add: stop_posting_def cancel_task_def Let_def split: option.splits)
  have c: "is_posting s \<and> reachable s \<longrightarrow>
      (\<exists>t. posting_task s = Some t \<and> tasks s ! t = Active \<and>
           tasks (fst (stop_posting s)) ! t = Cancelled) \<and>
      posting_task (fst (stop_posting s)) = None"
    using running by (auto simp: stop_posting_def cancel_task_def Let_def)
  show ?thesis using a b c again by blast
qed

theorem stop_posting_idempotent_witness:
  "stop_posting init = (init, Inr [(''status'', PStr (lit ''not_running'')),
                                  (''message'', PStr (lit ''Posting is not running''))]) \<and>
   stop_posting running = (ready\<lparr>tasks := [Cancelled]\<rparr>,
                           Inr [(''status'', PStr (lit ''success'')),
                                (''message'', PStr (lit ''Posting stopped''))]) \<and>
   is_posting running \<and> posting_task running = Some 0 \<and> tasks running ! 0 = Active \<and>
   \<not> is_posting (ready\<lparr>tasks := [Cancelled]\<rparr>) \<and>
   posting_task (ready\<lparr>tasks := [Cancelled]\<rparr>) = None"
proof -
  have a: "\<not> is_posting init" by (simp add: init_def)
  have b: "is_posting running" "posting_task running = Some 0" "tasks running ! 0 = Active"
    by (simp_all add: running_eq init_def)
  have c: "running\<lparr>is_posting := False, posting_task := None,
                   tasks := (tasks running)[0 := Cancelled]\<rparr> = ready\<lparr>tasks := [Cancelled]\<rparr>"
    by (simp add: running_eq ready_eq init_def)
  show ?thesis
    using stop_posting_idempotent [of init] stop_posting_idempotent [of running]
      a b c reachable_running
    by (auto simp: ready_eq init_def prod_eq_iff)
qed


section \<open>One iteration of the loop\<close>

lemma loop_body_cycle:
  assumes "lines (queue_data s) \<noteq> []"
    and "current_index (queue_data s) < length (lines (queue_data s))"
  shows "fst (loop_body env s) =
           s\<lparr>history_data :=
                record_history
                  \<lparr>content = lines (queue_data s) ! current_index (queue_data s),
                   line_number = current_index (queue_data s) + 1,
                   status = (if fst (post_to_facebook (client_post env) (config_data s)
                                      (lines (queue_data s) ! current_index (queue_data s)))
                             then lit ''success'' else lit ''failed''),
                   error_message = snd (post_to_facebook (client_post env) (config_data s)
                                      (lines (queue_data s) ! current_index (queue_data s))),
                   posted_at = now env\<rparr>
                  (history_data s),
              queue_data := (queue_data s)
                \<lparr>current_index := (current_index (queue_data s) + 1) mod length (lines (queue_data s))\<rparr>\<rparr>"
    and "snd (loop_body env s) = (case delay_seconds (config_data s) of None \<Rightarrow> 60 | Some d \<Rightarrow> d)"
  using assms
  by (simp_all add: loop_body_def Let_def item_def advance_def split: option.splits prod.splits)

lemma record_history_hd: "hd (record_history e h) = e"
  by (simp add: record_history_def Let_def)

lemma start_posting_frame:
  "fst (start_posting s) =
     s\<lparr>is_posting := is_posting (fst (start_posting s)),
       posting_task := posting_task (fst (start_posting s)),
       tasks := tasks (fst (start_posting s))\<rparr>"
  by (simp add: start_posting_def create_task_def)

lemma stop_posting_frame:
  "fst (stop_posting s) =
     s\<lparr>is_posting := is_posting (fst (stop_posting s)),
       posting_task := posting_task (fst (stop_posting s)),
       tasks := tasks (fst (stop_posting s))\<rparr>"
  by (simp add: stop_posting_def cancel_task_def Let_def split: option.splits)

lemma post_example_ok:
  "post_to_facebook (client_post example_env) (config_dict example_config) text = (True, None)"
  by (simp add: post_to_facebook_def post_data_def example_env_def config_dict_def
        example_config_def opt_str_def Let_def)

lemma example_env_now: "now example_env = lit ''t1''"
  by (simp add: example_env_def)

lemma running_queue:
  "queue_data running = \<lparr>lines = [lit ''hello'', lit ''world''], current_index = 0\<rparr>"
  "config_data running = config_dict example_config"
  "history_data running = []"
  by (simp_all add: running_eq init_def)

lemma after_one_eq:
  "after_one = running
     \<lparr>history_data := [\<lparr>content = lit ''hello'', line_number = 1, status = lit ''success'',
                         error_message = None, posted_at = lit ''t1''\<rparr>],
      queue_data := \<lparr>lines = [lit ''hello'', lit ''world''], current_index = 1\<rparr>\<rparr>"
  unfolding after_one_def
  by (subst loop_body_cycle(1))
     (simp_all add: running_queue post_example_ok record_history_def example_env_now)

lemma reachable_after_one: "reachable after_one"
  unfolding after_one_def
  by (rule r_cycle [OF reachable_running]) (simp add: running_eq)

section \<open>What starting and stopping leave alone\<close>

text \<open>
  C10. \<open>start_posting\<close> and \<open>stop_posting\<close> change nothing but \<open>is_posting\<close>, the task
  handle and the task list: the configuration, the queue (entries and cursor) and the
  history are the same afterwards. After a stop and a successful start the scheduler runs
  again on the same queue, and its next iteration publishes the entry under the cursor the
  previous run left, with that entry's position.
\<close>

theorem start_stop_frame:
  "fst (start_posting s) =
     s\<lparr>is_posting := is_posting (fst (start_posting s)),
       posting_task := posting_task (fst (start_posting s)),
       tasks := tasks (fst (start_posting s))\<rparr> \<and>
   fst (stop_posting s) =
     s\<lparr>is_posting := is_posting (fst (stop_posting s)),
       posting_task := posting_task (fst (stop_posting s)),
       tasks := tasks (fst (stop_posting s))\<rparr> \<and>
   config_data (fst (start_posting s)) = config_data s \<and>
   queue_data (fst (start_posting s)) = queue_data s \<and>
   history_data (fst (start_posting s)) = history_data s \<and>
   config_data (fst (stop_posting s)) = config_data s \<and>
   queue_data (fst (stop_posting s)) = queue_data s \<and>
   history_data (fst (stop_posting s)) = history_data s \<and>
   (config_data s \<noteq> [] \<and> lines (queue_data s) \<noteq> [] \<and>
    current_index (queue_data s) < length (lines (queue_data s)) \<longrightarrow>
      snd (start_posting (fst (stop_posting s))) =
        Inr [(''status'', PStr (lit ''success'')), (''message'', PStr (lit ''Posting started''))] \<and>
      is_posting (fst (start_posting (fst (stop_posting s)))) \<and>
      queue_data (fst (start_posting (fst (stop_posting s)))) = queue_data s \<and>
      content (hd (history_data (fst (loop_body env (fst (start_posting (fst (stop_posting s))))))))
        = lines (queue_data s) ! current_index (queue_data s) \<and>
      line_number (hd (history_data (fst (loop_body env (fst (start_posting (fst (stop_posting s))))))))
        = current_index (queue_data s) + 1)"
proof -
  let ?s1 = "fst (stop_posting s)"
  let ?s2 = "fst (start_posting ?s1)"
  have f1: "config_data (fst (start_posting t)) = config_data t \<and>
            queue_data (fst (start_posting t)) = queue_data t \<and>
            history_data (fst (start_posting t)) = history_data t" for t
    by (simp add: start_posting_def create_task_def)
  have f2: "config_data ?s1 = config_data s \<and> queue_data ?s1 = queue_data s \<and>
            history_data ?s1 = history_data s"
    by (simp add: stop_posting_def cancel_task_def Let_def split: option.splits)
  have stopped: "\<not> is_posting ?s1"
    by (simp add: stop_posting_def cancel_task_def Let_def split: option.splits)
  have resume: "snd (start_posting ?s1) =
        Inr [(''status'', PStr (lit ''success'')), (''message'', PStr (lit ''Posting started''))] \<and>
      is_posting ?s2 \<and> queue_data ?s2 = queue_data s \<and>
      content (hd (history_data (fst (loop_body env ?s2))))
        = lines (queue_data s) ! current_index (queue_data s) \<and>
      line_number (hd (history_data (fst (loop_body env ?s2))))
        = current_index (queue_data s) + 1"
    if h: "config_data s \<noteq> []" "lines (queue_data s) \<noteq> []"
      "current_index (queue_data s) < length (lines (queue_data s))"
  proof -
    have q: "queue_data ?s2 = queue_data s" using f1 [of ?s1] f2 by simp
    have st: "snd (start_posting ?s1) =
        Inr [(''status'', PStr (lit ''success'')), (''message'', PStr (lit ''Posting started''))]"
      "is_posting ?s2"
      using stopped h f2 by (simp_all add: start_posting_def create_task_def)
    have "lines (queue_data ?s2) \<noteq> []"
      "current_index (queue_data ?s2) < length (lines (queue_data ?s2))"
      using q h by simp_all
    from loop_body_cycle(1) [OF this, of env] show ?thesis
      using q st by (simp add: record_history_hd)
  qed
  show ?thesis
    using f1 [of s] f2 resume start_posting_frame [of s] stop_posting_frame [of s] by blast
qed



theorem start_stop_frame_witness:
  "queue_data (fst (start_posting (fst (stop_posting after_one)))) =
     \<lparr>lines = [lit ''hello'', lit ''world''], current_index = 1\<rparr> \<and>
   is_posting (fst (start_posting (fst (stop_posting after_one)))) \<and>
   content (hd (history_data
      (fst (loop_body example_env (fst (start_posting (fst (stop_posting after_one))))))))
     = lit ''world'' \<and>
   line_number (hd (history_data
      (fst (loop_body example_env (fst (start_posting (fst (stop_posting after_one))))))))
     = 2"
proof -
  have a: "config_data after_one \<noteq> []" "lines (queue_data after_one) \<noteq> []"
    "current_index (queue_data after_one) < length (lines (queue_data after_one))"
    "queue_data after_one = \<lparr>lines = [lit ''hello'', lit ''world''], current_index = 1\<rparr>"
    by (simp_all add: after_one_eq running_eq init_def config_dict_nonempty)
  show ?thesis
    using start_stop_frame [of after_one example_env] a by simp
qed

section \<open>Cyclic advance of the cursor\<close>

lemma advance_in_range:
  assumes "lines q \<noteq> []"
  shows "advance q = Some (q\<lparr>current_index := (current_index q + 1) mod length (lines q)\<rparr>)"
  using assms by (simp add: advance_def)

lemma advance_n_index:
  assumes "lines q \<noteq> []" and "current_index q < length (lines q)"
  shows "advance_n k q = Some (q\<lparr>current_index := (current_index q + k) mod length (lines q)\<rparr>)"
  using assms
proof (induction k arbitrary: q)
  case 0
  then show ?case by simp
next
  case (Suc k)
  let ?q1 = "q\<lparr>current_index := (current_index q + 1) mod length (lines q)\<rparr>"
  have n: "0 < length (lines q)" using Suc.prems by simp
  have "advance_n k ?q1 =
          Some (?q1\<lparr>current_index := (current_index ?q1 + k) mod length (lines ?q1)\<rparr>)"
    using Suc.prems n by (intro Suc.IH) simp_all
  moreover have "(current_index ?q1 + k) mod length (lines ?q1)
                   = (current_index q + Suc k) mod length (lines q)"
    by (simp add: mod_add_left_eq)
  ultimately show ?case
    using advance_in_range [OF Suc.prems(1)] by simp
qed

lemma loop_body_is_posting: "is_posting (fst (loop_body env s)) = is_posting s"
  by (simp add: loop_body_def Let_def split: option.splits prod.splits)

lemma posting_loop_step:
  "is_posting s \<Longrightarrow>
     posting_loop (env # envs) s =
       (fst (posting_loop envs (fst (loop_body env s))),
        snd (loop_body env s) # snd (posting_loop envs (fst (loop_body env s))))"
  by (simp add: case_prod_unfold Let_def)

lemma posting_loop_queue:
  assumes "is_posting s" and "lines (queue_data s) \<noteq> []"
    and "current_index (queue_data s) < length (lines (queue_data s))"
  shows "advance_n (length envs) (queue_data s) = Some (queue_data (fst (posting_loop envs s)))"
  using assms
proof (induction envs arbitrary: s)
  case Nil
  then show ?case by simp
next
  case (Cons env envs)
  let ?s1 = "fst (loop_body env s)"
  have q1: "queue_data ?s1 = (queue_data s)
     \<lparr>current_index := (current_index (queue_data s) + 1) mod length (lines (queue_data s))\<rparr>"
    by (subst loop_body_cycle(1) [OF Cons.prems(2,3)]) simp
  have "advance_n (length envs) (queue_data ?s1) = Some (queue_data (fst (posting_loop envs ?s1)))"
    using Cons.prems q1 by (intro Cons.IH) (simp_all add: loop_body_is_posting)
  then show ?case
    using Cons.prems(1) q1 advance_in_range [OF Cons.prems(2)]
    by (simp add: posting_loop_step del: posting_loop.simps)
qed

text \<open>
  C2. For a non-empty queue of length \<open>n\<close> whose cursor is in range (as it is in every
  reachable state), \<open>n\<close> advances in a row give back the same queue, cursor included;
  after any number \<open>k\<close> of advances the entries are the same and the cursor is
  \<open>(index + k) mod n\<close>, which is below \<open>n\<close>; and \<open>n\<close> iterations of the running loop,
  whatever the publish calls return, leave the queue with the cursor it started from.
\<close>

theorem cyclic_advance_closure:
  assumes "lines q \<noteq> []" and "current_index q < length (lines q)"
  shows "advance_n (length (lines q)) q = Some q \<and>
         (\<forall>k. \<exists>q'. advance_n k q = Some q' \<and> lines q' = lines q \<and>
                 current_index q' = (current_index q + k) mod length (lines q) \<and>
                 current_index q' < length (lines q')) \<and>
         (\<forall>s envs. queue_data s = q \<and> is_posting s \<and> length envs = length (lines q) \<longrightarrow>
                 queue_data (fst (posting_loop envs s)) = q)"
proof -
  have n: "0 < length (lines q)" using assms by simp
  have a: "advance_n (length (lines q)) q = Some q"
    using advance_n_index [OF assms, of "length (lines q)"] assms by simp
  have b: "\<exists>q'. advance_n k q = Some q' \<and> lines q' = lines q \<and>
                 current_index q' = (current_index q + k) mod length (lines q) \<and>
                 current_index q' < length (lines q')" for k
    using advance_n_index [OF assms, of k] n by simp
  have c: "queue_data (fst (posting_loop envs s)) = q"
    if "queue_data s = q" "is_posting s" "length envs = length (lines q)" for s envs
    using posting_loop_queue [of s envs] that assms a by simp
  show ?thesis using a b c by blast
qed

theorem cyclic_advance_closure_witness:
  "advance_n 2 \<lparr>lines = [lit ''hello'', lit ''world''], current_index = 1\<rparr> =
     Some \<lparr>lines = [lit ''hello'', lit ''world''], current_index = 1\<rparr> \<and>
   advance_n 1 \<lparr>lines = [lit ''hello'', lit ''world''], current_index = 1\<rparr> =
     Some \<lparr>lines = [lit ''hello'', lit ''world''], current_index = 0\<rparr> \<and>
   queue_data (fst (posting_loop [example_env, failing_env] after_one)) = queue_data after_one"
proof -
  let ?q = "\<lparr>lines = [lit ''hello'', lit ''world''], current_index = 1\<rparr>"
  have h: "lines ?q \<noteq> []" "current_index ?q < length (lines ?q)" by simp_all
  have s: "queue_data after_one = ?q" "is_posting after_one"
    by (simp_all add: after_one_eq running_eq init_def)
  have len: "length (lines ?q) = 2" "length [example_env, failing_env] = length (lines ?q)"
    by simp_all
  note t = cyclic_advance_closure [OF h]
  have a: "advance_n 2 ?q = Some ?q"
    using t [THEN conjunct1] unfolding len(1) .
  have c: "queue_data (fst (posting_loop [example_env, failing_env] after_one)) = ?q"
    by (rule t [THEN conjunct2, THEN conjunct2, rule_format]) (simp add: s)
  have b: "advance_n 1 ?q = Some \<lparr>lines = [lit ''hello'', lit ''world''], current_index = 0\<rparr>"
    by (simp add: advance_def)
  show ?thesis unfolding s(1) using a b c by (intro conjI)
qed

section \<open>The bounded history\<close>

lemma loop_body_history_bound:
  "length (history_data s) \<le> 50 \<Longrightarrow> length (history_data (fst (loop_body env s))) \<le> 50"
  by (simp add: loop_body_def Let_def record_history_length split: option.splits prod.splits)

lemma record_history_full:
  assumes "length h = 50"
  shows "record_history e h = e # butlast h"
proof -
  have "take 49 h = butlast h" using assms by (simp add: butlast_conv_take)
  then show ?thesis using assms by (simp add: record_history_def Let_def)
qed

lemma record_history_room:
  "length h < 50 \<Longrightarrow> record_history e h = e # h"
  by (simp add: record_history_def Let_def)

lemma last_not_in_butlast:
  assumes "distinct h" and "h \<noteq> []"
  shows "last h \<notin> set (butlast h)"
proof -
  have "h = butlast h @ [last h]" using assms(2) by simp
  then have "distinct (butlast h @ [last h])" using assms(1) by simp
  then show ?thesis by simp
qed

lemma full_history_length: "length full_history = 50"
  by (simp add: full_history_def)

lemma full_history_distinct: "distinct (numbered_entry 51 # full_history)"
  by (auto simp: full_history_def distinct_map inj_on_def numbered_entry_def)

lemma full_history_last: "last full_history = numbered_entry 1"
  by (simp add: full_history_def last_map last_rev upt_rec [of 1])

text \<open>
  C3. Recording an entry gives a history of at most 50 entries with the new entry at the
  front. Below 50 entries nothing is lost; on a full history of 50 the result is the new
  entry followed by all but the last (oldest) one, so the oldest is gone when the entries
  are distinct. An iteration of the loop keeps the bound, and every reachable state has
  at most 50 entries.
\<close>

theorem history_log_bounded:
  "length (record_history e h) \<le> 50 \<and>
   hd (record_history e h) = e \<and>
   (length h < 50 \<longrightarrow> record_history e h = e # h) \<and>
   (length h = 50 \<longrightarrow>
      record_history e h = e # butlast h \<and>
      (distinct (e # h) \<longrightarrow> last h \<notin> set (record_history e h))) \<and>
   (length (history_data s) \<le> 50 \<longrightarrow> length (history_data (fst (loop_body env s))) \<le> 50) \<and>
   (reachable s \<longrightarrow> length (history_data s) \<le> 50)"
proof -
  have full: "record_history e h = e # butlast h \<and>
      (distinct (e # h) \<longrightarrow> last h \<notin> set (record_history e h))" if l: "length h = 50"
  proof -
    have ne: "h \<noteq> []" using l by auto
    have eq: "record_history e h = e # butlast h" by (rule record_history_full [OF l])
    have "last h \<notin> set (e # butlast h)" if d: "distinct (e # h)"
    proof -
      have "last h \<in> set h" using ne by simp
      then have "last h \<noteq> e" using d by auto
      moreover have "last h \<notin> set (butlast h)"
        using d ne by (intro last_not_in_butlast) simp_all
      ultimately show ?thesis by simp
    qed
    then show ?thesis using eq by simp
  qed
  have reach: "length (history_data s) \<le> 50" if "reachable s"
    using reachable_inv [OF that] by (simp add: state_inv_def)
  show ?thesis
    using full reach record_history_length [of e h] record_history_hd [of e h]
      record_history_room [of h e] loop_body_history_bound [of s env]
    by blast
qed

theorem history_log_bounded_witness:
  "length full_history = 50 \<and> distinct (numbered_entry 51 # full_history) \<and>
   last full_history = numbered_entry 1 \<and>
   numbered_entry 1 \<notin> set (record_history (numbered_entry 51) full_history) \<and>
   hd (record_history (numbered_entry 51) full_history) = numbered_entry 51 \<and>
   length (record_history (numbered_entry 51) full_history) \<le> 50 \<and>
   record_history (numbered_entry 51) [] = [numbered_entry 51] \<and>
   length (history_data after_one) \<le> 50 \<and>
   length (history_data (fst (loop_body failing_env after_one))) \<le> 50"
proof -
  note t = history_log_bounded [of "numbered_entry 51" full_history after_one failing_env]
  note u = history_log_bounded [of "numbered_entry 51" "[]" after_one failing_env]
  have r: "length (history_data after_one) \<le> 50"
    using t reachable_after_one by blast
  have c: "length (history_data (fst (loop_body failing_env after_one))) \<le> 50"
    using t r by blast
  have e: "record_history (numbered_entry 51) [] = [numbered_entry 51]"
    using u by simp
  have "last full_history \<notin> set (record_history (numbered_entry 51) full_history)"
    using t full_history_length full_history_distinct by blast
  then have g: "numbered_entry 1 \<notin> set (record_history (numbered_entry 51) full_history)"
    unfolding full_history_last .
  have f: "hd (record_history (numbered_entry 51) full_history) = numbered_entry 51"
    "length (record_history (numbered_entry 51) full_history) \<le> 50"
    using t by blast+
  show ?thesis
    using full_history_length full_history_distinct full_history_last g f e r c
    by (intro conjI)
qed

section \<open>A failed publish call\<close>

lemma post_to_facebook_outcome:
  "post_to_facebook client config text = (True, None) \<or>
   (\<exists>err. post_to_facebook client config text = (False, Some err))"
  by (simp add: post_to_facebook_def Let_def split: option.splits post_outcome.splits)


lemma post_example:
  "post_to_facebook (client_post example_env) (config_dict c) text = (True, None)"
  by (simp add: post_to_facebook_def post_data_def example_env_def config_dict_def Let_def)















section \<open>Parsing an upload\<close>

lemma split_lf_nonempty: "split_lf t \<noteq> []"
  by (induction t) (auto split: list.splits)

lemma split_lf_no_lf: "l \<in> set (split_lf t) \<Longrightarrow> 10 \<notin> set l"
proof (induction t arbitrary: l)
  case Nil
  then show ?case by simp
next
  case (Cons c cs)
  show ?case
  proof (cases "c = 10")
    case True
    with Cons show ?thesis by auto
  next
    case False
    obtain m ms where ms: "split_lf cs = m # ms"
      using split_lf_nonempty [of cs] by (cases "split_lf cs") auto
    with False Cons.prems have "l = c # m \<or> l \<in> set ms" by auto
    with False ms Cons.IH show ?thesis by auto
  qed
qed

lemma split_lf_join: "join_lf (split_lf t) = t"
proof (induction t)
  case Nil
  then show ?case by simp
next
  case (Cons c cs)
  obtain m ms where ms: "split_lf cs = m # ms"
    using split_lf_nonempty [of cs] by (cases "split_lf cs") auto
  show ?case
  proof (cases "c = 10")
    case True
    with Cons ms show ?thesis by simp
  next
    case False
    with Cons ms show ?thesis by (cases ms) auto
  qed
qed

lemma strip_empty_iff: "strip l = [] \<longleftrightarrow> (\<forall>c\<in>set l. isspace c)"
proof -
  let ?m = "dropWhile isspace l"
  have a: "strip l = [] \<longleftrightarrow> (\<forall>x\<in>set ?m. isspace x)"
    by (simp add: strip_def)
  have b: "(\<forall>x\<in>set ?m. isspace x) \<longleftrightarrow> ?m = []"
  proof
    assume all: "\<forall>x\<in>set ?m. isspace x"
    show "?m = []"
    proof (rule ccontr)
      assume ne: "?m \<noteq> []"
      then have "\<not> isspace (hd ?m)" by (rule hd_dropWhile)
      moreover have "hd ?m \<in> set ?m" using ne by (rule hd_in_set)
      ultimately show False using all by blast
    qed
  next
    assume "?m = []"
    then show "\<forall>x\<in>set ?m. isspace x" by (simp only: list.set ball_empty)
  qed
  have c: "?m = [] \<longleftrightarrow> (\<forall>c\<in>set l. isspace c)"
    by simp
  show ?thesis using a b c by blast
qed

lemma strip_decompose:
  "\<exists>a b. l = a @ strip l @ b \<and> (\<forall>c\<in>set a. isspace c) \<and> (\<forall>c\<in>set b. isspace c)"
proof -
  let ?a = "takeWhile isspace l"
  let ?m = "dropWhile isspace l"
  let ?b = "rev (takeWhile isspace (rev ?m))"
  have "rev (rev ?m) = rev (takeWhile isspace (rev ?m) @ dropWhile isspace (rev ?m))"
    by (simp only: takeWhile_dropWhile_id)
  also have "\<dots> = strip l @ ?b"
    by (simp only: rev_append strip_def)
  finally have m: "?m = strip l @ ?b" by (simp only: rev_rev_ident)
  have "l = ?a @ ?m" by (simp only: takeWhile_dropWhile_id)
  then have "l = ?a @ strip l @ ?b" using m by (simp only:)
  moreover have "\<forall>c\<in>set ?a. isspace c" by (auto dest: set_takeWhileD)
  moreover have "\<forall>c\<in>set ?b. isspace c" by (auto dest: set_takeWhileD)
  ultimately show ?thesis by blast
qed

lemma last_dropWhile: "dropWhile P xs \<noteq> [] \<Longrightarrow> last (dropWhile P xs) = last xs"
  by (induction xs) (auto split: if_splits)

lemma strip_ends:
  assumes "strip l \<noteq> []"
  shows "\<not> isspace (hd (strip l)) \<and> \<not> isspace (last (strip l))"
proof -
  let ?m = "dropWhile isspace l"
  let ?r = "dropWhile isspace (rev ?m)"
  have s: "strip l = rev ?r" by (simp only: strip_def)
  have r: "?r \<noteq> []" using assms unfolding s by (simp only: rev_is_Nil_conv not_False_eq_True)
  have m: "?m \<noteq> []"
  proof
    assume "?m = []"
    then have "?r = []" by (simp only: rev.simps dropWhile.simps)
    with r show False by contradiction
  qed
  have "last (strip l) = hd ?r" unfolding s using r by (simp only: last_rev)
  moreover have "\<not> isspace (hd ?r)" using r by (rule hd_dropWhile)
  moreover have "hd (strip l) = last ?r" unfolding s using r by (simp only: hd_rev)
  moreover have "last ?r = last (rev ?m)" using r by (rule last_dropWhile)
  moreover have "last (rev ?m) = hd ?m" using m by (simp only: last_rev)
  moreover have "\<not> isspace (hd ?m)" using m by (rule hd_dropWhile)
  ultimately show ?thesis by (simp only: simp_thms)
qed

lemma parse_lines_alt: "parse_lines t = filter (\<lambda>l. l \<noteq> []) (map strip (split_lf t))"
  by (simp add: parse_lines_def filter_map comp_def)

lemma parse_lines_empty_iff:
  "parse_lines t = [] \<longleftrightarrow> (\<forall>l\<in>set (split_lf t). \<forall>c\<in>set l. isspace c)"
  by (simp add: parse_lines_def filter_empty_conv strip_empty_iff)


lemma ab_text_parse: "parse_lines ab_text = [lit ''a'', lit ''b'']"
  by (simp add: ab_text_def parse_lines_def lit_def strip_def isspace_def)

lemma ab_text_split: "split_lf ab_text = [lit ''a'', [], lit ''b'', []]"
  by (simp add: ab_text_def lit_def)

lemma blank_text_split: "split_lf blank_text = [Nil, [32, 9, 13], [160], Nil]"
  by (simp add: blank_text_def)

lemma blank_text_blank: "\<forall>l\<in>set (split_lf blank_text). \<forall>c\<in>set l. isspace c"
  by (simp add: blank_text_split isspace_def)

lemma upload_file_accepted:
  assumes "endswith (filename file) (lit ''.txt'')" and "file_content file = Utf8 text"
    and "parse_lines text \<noteq> []"
  shows "fst (upload_file file s) =
           s\<lparr>queue_data := \<lparr>lines = parse_lines text, current_index = 0\<rparr>\<rparr>"
    and "response_status (snd (upload_file file s)) = Some (PStr (lit ''success''))"
    and "map_of (case snd (upload_file file s) of Inr d \<Rightarrow> d | Inl e \<Rightarrow> []) ''total_lines'' =
           Some (PInt (int (length (parse_lines text))))"
  using assms by (simp_all add: upload_file_def Let_def response_status_def)

lemma upload_file_empty:
  assumes "endswith (filename file) (lit ''.txt'')" and "file_content file = Utf8 text"
    and "parse_lines text = []"
  shows "upload_file file s = (s, Inl UploadEmpty)"
  using assms by (simp add: upload_file_def Let_def UploadEmpty_def)

lemma picture_file_name: "\<not> endswith (filename picture_file) (lit ''.txt'')"
  by (simp add: picture_file_def endswith_def lit_def)

lemma blank_file_name: "endswith (filename blank_file) (lit ''.txt'')"
  by (simp add: blank_file_def endswith_def lit_def)

lemma blank_file_content: "file_content blank_file = Utf8 blank_text"
  by (simp add: blank_file_def)

lemma ab_file_name: "endswith (filename ab_file) (lit ''.txt'')"
  by (simp add: ab_file_def endswith_def lit_def)

lemma ab_file_content: "file_content ab_file = Utf8 (lit ''a'' @ [10, 10] @ lit ''b'' @ [10])"
  by (simp add: ab_file_def ab_text_def)

section \<open>Replacing the queue\<close>

text \<open>
  C5. For a \<open>.txt\<close> upload that decodes to \<open>text\<close>: the split cuts \<open>text\<close> at its line
  feeds (the pieces hold no line feed and joined by line feeds give \<open>text\<close> back); \<open>strip\<close>
  removes the white space at both ends of a line and nothing else; the parsed entries are
  the stripped lines that are not empty, in order. With no entry left the upload fails
  with \<open>UploadEmpty\<close> and the state is unchanged, in particular when every line is blank;
  otherwise the entries become the queue and the cursor is 0. The text \<open>a\n\nb\n\<close> gives
  the queue \<open>a\<close>, \<open>b\<close> with cursor 0.
\<close>

theorem upload_file_replaces_queue:
  assumes "endswith (filename file) (lit ''.txt'')" and "file_content file = Utf8 text"
  shows "join_lf (split_lf text) = text \<and>
         (\<forall>l\<in>set (split_lf text). 10 \<notin> set l) \<and>
         parse_lines text = filter (\<lambda>l. l \<noteq> []) (map strip (split_lf text)) \<and>
         (\<forall>l. (strip l = [] \<longleftrightarrow> (\<forall>c\<in>set l. isspace c)) \<and>
              (\<exists>a b. l = a @ strip l @ b \<and> (\<forall>c\<in>set a. isspace c) \<and> (\<forall>c\<in>set b. isspace c)) \<and>
              (strip l \<noteq> [] \<longrightarrow> \<not> isspace (hd (strip l)) \<and> \<not> isspace (last (strip l)))) \<and>
         (parse_lines text = [] \<longrightarrow> upload_file file s = (s, Inl UploadEmpty)) \<and>
         (parse_lines text \<noteq> [] \<longrightarrow>
            fst (upload_file file s) =
              s\<lparr>queue_data := \<lparr>lines = parse_lines text, current_index = 0\<rparr>\<rparr> \<and>
            response_status (snd (upload_file file s)) = Some (PStr (lit ''success''))) \<and>
         ((\<forall>l\<in>set (split_lf text). \<forall>c\<in>set l. isspace c) \<longrightarrow>
            upload_file file s = (s, Inl UploadEmpty)) \<and>
         (text = lit ''a'' @ [10, 10] @ lit ''b'' @ [10] \<longrightarrow>
            queue_data (fst (upload_file file s)) =
              \<lparr>lines = [lit ''a'', lit ''b''], current_index = 0\<rparr>)"
proof -
  have strip_facts: "(strip l = [] \<longleftrightarrow> (\<forall>c\<in>set l. isspace c)) \<and>
       (\<exists>a b. l = a @ strip l @ b \<and> (\<forall>c\<in>set a. isspace c) \<and> (\<forall>c\<in>set b. isspace c)) \<and>
       (strip l \<noteq> [] \<longrightarrow> \<not> isspace (hd (strip l)) \<and> \<not> isspace (last (strip l)))" for l
    using strip_empty_iff [of l] strip_decompose [of l] strip_ends [of l] by blast
  have empty: "upload_file file s = (s, Inl UploadEmpty)" if "parse_lines text = []"
    using upload_file_empty [OF assms that] .
  have full: "fst (upload_file file s) =
              s\<lparr>queue_data := \<lparr>lines = parse_lines text, current_index = 0\<rparr>\<rparr> \<and>
            response_status (snd (upload_file file s)) = Some (PStr (lit ''success''))"
    if "parse_lines text \<noteq> []"
    using upload_file_accepted [OF assms that, of s] by simp
  have blank: "upload_file file s = (s, Inl UploadEmpty)"
    if "\<forall>l\<in>set (split_lf text). \<forall>c\<in>set l. isspace c"
    using that empty by (simp add: parse_lines_empty_iff)
  have ab: "queue_data (fst (upload_file file s)) =
              \<lparr>lines = [lit ''a'', lit ''b''], current_index = 0\<rparr>"
    if t: "text = lit ''a'' @ [10, 10] @ lit ''b'' @ [10]"
  proof -
    have p: "parse_lines text = [lit ''a'', lit ''b'']"
      unfolding t using ab_text_parse by (simp only: ab_text_def)
    then have "parse_lines text \<noteq> []" by simp
    from full [OF this] show ?thesis by (simp add: p)
  qed
  have no_lf: "\<forall>l\<in>set (split_lf text). 10 \<notin> set l"
    using split_lf_no_lf by blast
  show ?thesis
    using split_lf_join [of "text"] no_lf parse_lines_alt [of "text"] strip_facts empty full blank ab
    by (intro conjI allI impI) blast+
qed

theorem upload_file_replaces_queue_witness:
  "split_lf (lit ''a'' @ [10, 10] @ lit ''b'' @ [10]) = [lit ''a'', [], lit ''b'', []] \<and>
   queue_data (fst (upload_file ab_file after_one)) =
     \<lparr>lines = [lit ''a'', lit ''b''], current_index = 0\<rparr> \<and>
   current_index (queue_data after_one) = 1 \<and>
   split_lf blank_text = [Nil, [32, 9, 13], [160], Nil] \<and>
   upload_file blank_file after_one = (after_one, Inl UploadEmpty)"
proof -
  note t = upload_file_replaces_queue [OF ab_file_name ab_file_content, of after_one]
  note u = upload_file_replaces_queue [OF blank_file_name blank_file_content, of after_one]
  have a: "queue_data (fst (upload_file ab_file after_one)) =
     \<lparr>lines = [lit ''a'', lit ''b''], current_index = 0\<rparr>"
    using t by blast
  have b: "upload_file blank_file after_one = (after_one, Inl UploadEmpty)"
    using u blank_text_blank by blast
  have c: "current_index (queue_data after_one) = 1"
    by (simp add: after_one_eq)
  have d: "split_lf (lit ''a'' @ [10, 10] @ lit ''b'' @ [10]) = [lit ''a'', [], lit ''b'', []]"
    using ab_text_split by (simp only: ab_text_def)
  show ?thesis using a b c d blank_text_split by (intro conjI)
qed

text \<open>
  C6. An upload that raises leaves the whole state as it was, so the entries and the
  cursor of the queue are the same: a file name that does not end in \<open>.txt\<close> is refused
  with \<open>UploadFormatError\<close>, a text without entries with \<open>UploadEmpty\<close>.
\<close>

theorem rejected_upload_keeps_queue:
  "(\<forall>e. snd (upload_file file s) = Inl e \<longrightarrow>
       fst (upload_file file s) = s \<and>
       lines (queue_data (fst (upload_file file s))) = lines (queue_data s) \<and>
       current_index (queue_data (fst (upload_file file s))) = current_index (queue_data s)) \<and>
   (\<not> endswith (filename file) (lit ''.txt'') \<longrightarrow>
       upload_file file s = (s, Inl UploadFormatError)) \<and>
   (\<forall>text. endswith (filename file) (lit ''.txt'') \<and> file_content file = Utf8 text \<and>
       parse_lines text = [] \<longrightarrow> upload_file file s = (s, Inl UploadEmpty))"
proof -
  have a: "fst (upload_file file s) = s" if "snd (upload_file file s) = Inl e" for e
    using that by (auto simp: upload_file_def Let_def split: if_splits file_bytes.splits)
  have b: "upload_file file s = (s, Inl UploadFormatError)"
    if "\<not> endswith (filename file) (lit ''.txt'')"
    using that by (simp add: upload_file_def UploadFormatError_def)
  show ?thesis
    using a b upload_file_empty [of "file" _ "s"] by auto
qed

theorem rejected_upload_keeps_queue_witness:
  "upload_file picture_file after_one = (after_one, Inl UploadFormatError) \<and>
   upload_file blank_file after_one = (after_one, Inl UploadEmpty) \<and>
   queue_data after_one = \<lparr>lines = [lit ''hello'', lit ''world''], current_index = 1\<rparr>"
proof -
  note t = rejected_upload_keeps_queue [of picture_file after_one]
  note u = rejected_upload_keeps_queue [of blank_file after_one]
  have p: "parse_lines blank_text = []"
    using blank_text_blank by (simp only: parse_lines_empty_iff)
  have a: "upload_file picture_file after_one = (after_one, Inl UploadFormatError)"
    using t picture_file_name by blast
  have b: "upload_file blank_file after_one = (after_one, Inl UploadEmpty)"
    using u blank_file_name blank_file_content p by blast
  have c: "queue_data after_one = \<lparr>lines = [lit ''hello'', lit ''world''], current_index = 1\<rparr>"
    by (simp add: after_one_eq)
  show ?thesis using a b c by (intro conjI)
qed

section \<open>Composing the message\<close>

lemma truthy_opt_str: "truthy (Some (opt_str x)) \<longleftrightarrow> field_text x \<noteq> []"
  by (cases x) (simp_all add: opt_str_def field_text_def)

lemma py_format_opt_str: "field_text x \<noteq> [] \<Longrightarrow> py_format (opt_str x) = field_text x"
  by (cases x) (simp_all add: opt_str_def field_text_def)

lemma config_dict_get:
  "map_of (config_dict c) ''fb_token'' = Some (PStr (fb_token c))"
  "map_of (config_dict c) ''page_id'' = Some (opt_str (page_id c))"
  "map_of (config_dict c) ''delay_minutes'' = Some (PInt (delay_minutes c))"
  "map_of (config_dict c) ''mention_uid'' = Some (opt_str (mention_uid c))"
  "map_of (config_dict c) ''mention_name'' = Some (opt_str (mention_name c))"
  "map_of (config_dict c) ''prefix_text'' = Some (opt_str (prefix_text c))"
  by (simp_all add: config_dict_def)

lemma compose_message_config:
  "compose_message (config_dict c) text =
     (if field_text (mention_uid c) = [] then []
      else lit ''@['' @ field_text (mention_uid c)
           @ (if field_text (mention_name c) = [] then []
              else lit '':'' @ field_text (mention_name c))
           @ lit '']'' @ lit '' '')
     @ field_text (prefix_text c) @ text"
  by (simp add: compose_message_def config_dict_get truthy_opt_str py_format_opt_str Let_def)

lemma feed_url_config:
  "feed_url (config_dict c) =
     (if field_text (page_id c) = [] then lit ''https://graph.facebook.com/v21.0/me/feed''
      else lit ''https://graph.facebook.com/v21.0/'' @ field_text (page_id c) @ lit ''/feed'')"
  by (simp add: feed_url_def config_dict_get truthy_opt_str py_format_opt_str)

lemma post_data_config:
  "post_data (config_dict c) message =
     Some ([(''message'', PStr message), (''access_token'', PStr (fb_token c))]
           @ (if field_text (mention_uid c) = [] then []
              else [(''tags'', PStr (field_text (mention_uid c)))]))"
  by (cases "mention_uid c")
     (simp_all add: post_data_def config_dict_get truthy_opt_str Let_def opt_str_def field_text_def)

lemma decorated_fields:
  "field_text (mention_uid decorated_config) = lit ''42''"
  "field_text (mention_name decorated_config) = lit ''Bob''"
  "field_text (prefix_text decorated_config) = lit ''Hi ''"
  "field_text (page_id decorated_config) = lit ''77''"
  by (simp_all add: decorated_config_def field_text_def)

lemma example_fields:
  "field_text (mention_uid example_config) = []"
  "field_text (mention_name example_config) = []"
  "field_text (prefix_text example_config) = []"
  "field_text (page_id example_config) = []"
  by (simp_all add: example_config_def field_text_def)

text \<open>
  C8. For a saved configuration the message sent is the entry with the prefix text in
  front (an empty or missing prefix adds nothing), and, when a mention identifier is set,
  with the marker \<open>@[uid]\<close>, or \<open>@[uid:name]\<close> when the name is known, and a space in front
  of that. The request goes to the feed of \<open>page_id\<close> when it is set and to \<open>me/feed\<close>
  otherwise, and carries that message.
\<close>

theorem message_composition:
  "compose_message (config_dict c) text =
     (if field_text (mention_uid c) = [] then []
      else lit ''@['' @ field_text (mention_uid c)
           @ (if field_text (mention_name c) = [] then []
              else lit '':'' @ field_text (mention_name c))
           @ lit '']'' @ lit '' '')
     @ field_text (prefix_text c) @ text \<and>
   feed_url (config_dict c) =
     (if field_text (page_id c) = [] then lit ''https://graph.facebook.com/v21.0/me/feed''
      else lit ''https://graph.facebook.com/v21.0/'' @ field_text (page_id c) @ lit ''/feed'') \<and>
   post_to_facebook client (config_dict c) text =
     (case client (feed_url (config_dict c))
             ([(''message'', PStr (compose_message (config_dict c) text)),
               (''access_token'', PStr (fb_token c))]
              @ (if field_text (mention_uid c) = [] then []
                 else [(''tags'', PStr (field_text (mention_uid c)))])) of
        PostRaised e \<Rightarrow> (False, Some e)
      | PostResponse status_code body \<Rightarrow>
          if status_code = 200 then (True, None)
          else (False, Some (lit ''Facebook API Error: '' @ body)))"
proof -
  have "post_to_facebook client (config_dict c) text =
     (case client (feed_url (config_dict c))
             ([(''message'', PStr (compose_message (config_dict c) text)),
               (''access_token'', PStr (fb_token c))]
              @ (if field_text (mention_uid c) = [] then []
                 else [(''tags'', PStr (field_text (mention_uid c)))])) of
        PostRaised e \<Rightarrow> (False, Some e)
      | PostResponse status_code body \<Rightarrow>
          if status_code = 200 then (True, None)
          else (False, Some (lit ''Facebook API Error: '' @ body)))"
    unfolding post_to_facebook_def Let_def post_data_config by simp
  then show ?thesis
    using compose_message_config [of c "text"] feed_url_config [of c] by (intro conjI)
qed


theorem message_composition_witness:
  "compose_message (config_dict decorated_config) (lit ''hello'') = lit ''@[42:Bob] Hi hello'' \<and>
   feed_url (config_dict decorated_config) = lit ''https://graph.facebook.com/v21.0/77/feed'' \<and>
   compose_message (config_dict example_config) (lit ''hello'') = lit ''hello'' \<and>
   feed_url (config_dict example_config) = lit ''https://graph.facebook.com/v21.0/me/feed''"
proof -
  note t = message_composition [of decorated_config "lit ''hello''"]
  note u = message_composition [of example_config "lit ''hello''"]
  have a: "compose_message (config_dict decorated_config) (lit ''hello'') = lit ''@[42:Bob] Hi hello''"
    using t [THEN conjunct1] by (simp add: decorated_fields) (simp add: lit_def)
  have b: "feed_url (config_dict decorated_config) = lit ''https://graph.facebook.com/v21.0/77/feed''"
    using t [THEN conjunct2, THEN conjunct1] by (simp add: decorated_fields) (simp add: lit_def)
  have c: "compose_message (config_dict example_config) (lit ''hello'') = lit ''hello''"
    using u [THEN conjunct1] by (simp add: example_fields)
  have d: "feed_url (config_dict example_config) = lit ''https://graph.facebook.com/v21.0/me/feed''"
    using u [THEN conjunct2, THEN conjunct1] by (simp add: example_fields)
  show ?thesis using a b c d by (intro conjI)
qed

section \<open>Saving a configuration with a mention\<close>

lemma save_config_result:
  "snd (save_config client c s) =
     Inr [(''status'', PStr (lit ''success'')), (''message'', PStr (lit ''Configuration saved''))]"
  by (simp add: save_config_def Let_def)

lemma save_config_no_lookup:
  assumes "field_text (mention_uid c) = [] \<or> field_text (mention_name c) \<noteq> []"
  shows "config_data (fst (save_config client c s)) = config_dict c"
  using assms by (auto simp: save_config_def Let_def config_dict_get truthy_opt_str)

lemma save_config_lookup:
  assumes "field_text (mention_uid c) \<noteq> []" and "field_text (mention_name c) = []"
  shows "config_data (fst (save_config client c s)) =
           (let name = get_facebook_user_name client (PStr (field_text (mention_uid c)))
                         (PStr (fb_token c))
            in if truthy (Some name) then AList.update ''mention_name'' name (config_dict c)
               else config_dict c)"
proof -
  obtain u where u: "mention_uid c = Some u" "u \<noteq> []"
    using assms(1) by (cases "mention_uid c") (auto simp: field_text_def)
  have n: "\<not> truthy (Some (opt_str (mention_name c)))"
    using assms(2) by (simp add: truthy_opt_str)
  have t: "truthy (Some (opt_str (mention_uid c)))"
    using assms(1) by (simp add: truthy_opt_str)
  show ?thesis
    using n t u
    by (simp add: save_config_def Let_def config_dict_get) (simp add: opt_str_def field_text_def)
qed

lemma get_facebook_user_name_request:
  "field_text (mention_uid c) \<noteq> [] \<Longrightarrow>
   get_facebook_user_name client (PStr (field_text (mention_uid c))) (PStr (fb_token c)) =
     (case lookup_request client c of
        GetRaised \<Rightarrow> PNone
      | GetResponse status_code body \<Rightarrow>
          if status_code = 200 then
            (case body of
               NotJsonObject \<Rightarrow> PNone
             | JsonObject d \<Rightarrow> (case map_of d ''name'' of None \<Rightarrow> PStr [] | Some v \<Rightarrow> v))
          else PNone)"
  by (simp add: get_facebook_user_name_def lookup_request_def)

lemma update_mention_name:
  "AList.update ''mention_name'' (PStr n) (config_dict c) = config_dict (c\<lparr>mention_name := Some n\<rparr>)"
  by (simp add: config_dict_def opt_str_def)

lemma unnamed_fields:
  "field_text (mention_uid unnamed_config) \<noteq> []"
  "field_text (mention_name unnamed_config) = []"
  "field_text (mention_uid unnamed_config) = lit ''42''"
  by (simp_all add: unnamed_config_def field_text_def lit_def)

lemma name_client_request:
  "lookup_request name_client unnamed_config =
     GetResponse 200 (JsonObject [(''name'', PStr (lit ''Bob'')), (''id'', PStr (lit ''42''))])"
  by (simp add: lookup_request_def name_client_def unnamed_fields(3)) (simp add: lit_def)

lemma failing_client_request: "lookup_request (\<lambda>url params. GetRaised) unnamed_config = GetRaised"
  by (simp add: lookup_request_def)

text \<open>
  C9. \<open>save_config\<close> with a mention identifier and no mention name asks the lookup
  client for the name. A response 200 whose JSON object has a non-empty \<open>name\<close> puts that
  name into the stored configuration; an exception, another status code, a body that is
  no JSON object or an object without \<open>name\<close> leave the configuration as given, its name
  empty. The handler returns success in every case and changes nothing but \<open>config_data\<close>.
\<close>

theorem save_config_enrichment:
  assumes "field_text (mention_uid c) \<noteq> []" and "field_text (mention_name c) = []"
  shows "snd (save_config client c s) =
           Inr [(''status'', PStr (lit ''success'')),
                (''message'', PStr (lit ''Configuration saved''))] \<and>
         fst (save_config client c s) =
           s\<lparr>config_data := config_data (fst (save_config client c s))\<rparr> \<and>
         (\<forall>j n. lookup_request client c = GetResponse 200 (JsonObject j) \<and>
                map_of j ''name'' = Some (PStr n) \<and> n \<noteq> [] \<longrightarrow>
                config_data (fst (save_config client c s)) =
                  config_dict (c\<lparr>mention_name := Some n\<rparr>) \<and>
                map_of (config_data (fst (save_config client c s))) ''mention_name'' =
                  Some (PStr n)) \<and>
         (lookup_request client c = GetRaised \<or>
          (\<exists>status_code body. lookup_request client c = GetResponse status_code body \<and>
                               status_code \<noteq> 200) \<or>
          lookup_request client c = GetResponse 200 NotJsonObject \<or>
          (\<exists>j. lookup_request client c = GetResponse 200 (JsonObject j) \<and>
                map_of j ''name'' = None) \<longrightarrow>
            config_data (fst (save_config client c s)) = config_dict c \<and>
            \<not> truthy (map_of (config_data (fst (save_config client c s))) ''mention_name''))"
proof -
  note l = save_config_lookup [OF assms, of client s]
  note g = get_facebook_user_name_request [OF assms(1), of client]
  have ok: "config_data (fst (save_config client c s)) = config_dict (c\<lparr>mention_name := Some n\<rparr>) \<and>
            map_of (config_data (fst (save_config client c s))) ''mention_name'' = Some (PStr n)"
    if "lookup_request client c = GetResponse 200 (JsonObject j)"
      "map_of j ''name'' = Some (PStr n)" "n \<noteq> []" for j n
    using that by (simp add: l g update_mention_name config_dict_get opt_str_def)
  have empty: "\<not> truthy (map_of (config_dict c) ''mention_name'')"
    using assms(2) by (simp add: config_dict_get truthy_opt_str)
  have failed: "config_data (fst (save_config client c s)) = config_dict c"
    if "lookup_request client c = GetRaised \<or>
          (\<exists>status_code body. lookup_request client c = GetResponse status_code body \<and>
                               status_code \<noteq> 200) \<or>
          lookup_request client c = GetResponse 200 NotJsonObject \<or>
          (\<exists>j. lookup_request client c = GetResponse 200 (JsonObject j) \<and>
                map_of j ''name'' = None)"
    using that by (auto simp: l g)
  have failed': "config_data (fst (save_config client c s)) = config_dict c \<and>
            \<not> truthy (map_of (config_data (fst (save_config client c s))) ''mention_name'')"
    if "lookup_request client c = GetRaised \<or>
          (\<exists>status_code body. lookup_request client c = GetResponse status_code body \<and>
                               status_code \<noteq> 200) \<or>
          lookup_request client c = GetResponse 200 NotJsonObject \<or>
          (\<exists>j. lookup_request client c = GetResponse 200 (JsonObject j) \<and>
                map_of j ''name'' = None)"
    using failed [OF that] empty by simp
  show ?thesis
    using ok failed' save_config_result [of client c s] save_config_frame [of client c s]
    by blast
qed


theorem save_config_enrichment_witness:
  "config_data (fst (save_config name_client unnamed_config init)) =
     config_dict (unnamed_config\<lparr>mention_name := Some (lit ''Bob'')\<rparr>) \<and>
   map_of (config_data (fst (save_config name_client unnamed_config init))) ''mention_name'' =
     Some (PStr (lit ''Bob'')) \<and>
   config_data (fst (save_config (\<lambda>url params. GetRaised) unnamed_config init)) =
     config_dict unnamed_config \<and>
   map_of (config_dict unnamed_config) ''mention_name'' = Some PNone \<and>
   snd (save_config (\<lambda>url params. GetRaised) unnamed_config init) =
     Inr [(''status'', PStr (lit ''success'')), (''message'', PStr (lit ''Configuration saved''))]"
proof -
  note t = save_config_enrichment [OF unnamed_fields(1,2), of name_client init]
  note u = save_config_enrichment [OF unnamed_fields(1,2), of "\<lambda>url params. GetRaised" init]
  have n: "map_of [(''name'', PStr (lit ''Bob'')), (''id'', PStr (lit ''42''))] ''name'' =
             Some (PStr (lit ''Bob''))" "lit ''Bob'' \<noteq> []"
    by (simp_all add: lit_def)
  have a: "config_data (fst (save_config name_client unnamed_config init)) =
             config_dict (unnamed_config\<lparr>mention_name := Some (lit ''Bob'')\<rparr>) \<and>
           map_of (config_data (fst (save_config name_client unnamed_config init))) ''mention_name'' =
             Some (PStr (lit ''Bob''))"
    using t name_client_request n by blast
  have b: "config_data (fst (save_config (\<lambda>url params. GetRaised) unnamed_config init)) =
             config_dict unnamed_config"
    using u failing_client_request by blast
  have c: "snd (save_config (\<lambda>url params. GetRaised) unnamed_config init) =
     Inr [(''status'', PStr (lit ''success'')), (''message'', PStr (lit ''Configuration saved''))]"
    using u by blast
  have d: "map_of (config_dict unnamed_config) ''mention_name'' = Some PNone"
    by (simp add: config_dict_get unnamed_config_def opt_str_def)
  show ?thesis using a b c d by (intro conjI) blast+
qed

end
